theory Spec2Isabelle
  imports Main
begin

section \<open>Slot machine payout (Gambling.slots, gambling\_broken.py lines 106--146)\<close>

text \<open>
  The seven entries of \<^verbatim>\<open>symbols\<close>, in the order of the source list: cherries, lemon,
  orange, grapes, gem stone, star and the keycap seven.  The source compares the
  strings with \<^verbatim>\<open>==\<close>; distinct constructors stand for the distinct strings.
\<close>

datatype symbol = Cherry | Lemon | Orange | Grape | Diamond | Star | Seven

definition symbols :: "symbol list" where
  "symbols = [Cherry, Lemon, Orange, Grape, Diamond, Star, Seven]"

definition weights :: "nat list" where
  "weights = [30, 25, 20, 15, 5, 3, 2]"

text \<open>
  \<^verbatim>\<open>reels\<close> is the list built by the comprehension over \<^verbatim>\<open>range(3)\<close>; the draw itself
  (\<^verbatim>\<open>random.choices\<close>) is an input of the model.  The function is the
  \<^verbatim>\<open>if/elif\<close> cascade that computes \<^verbatim>\<open>winnings\<close>, which starts at 0.
\<close>

definition slots_winnings :: "int \<Rightarrow> symbol list \<Rightarrow> int" where
  "slots_winnings bet reels =
     (if reels ! 0 = reels ! 1 \<and> reels ! 1 = reels ! 2 then
        (if reels ! 0 = Seven then bet * 100
         else if reels ! 0 = Diamond then bet * 50
         else if reels ! 0 = Star then bet * 25
         else bet * 10)
      else if reels ! 0 = reels ! 1 \<or> reels ! 1 = reels ! 2 \<or> reels ! 0 = reels ! 2 then bet * 2
      else 0)"

text \<open>
  The payout table in the words of the specification, as six rules that do not
  refer to one another: a condition on the draw and the multiple of the stake paid.
\<close>

definition slot_rules :: "symbol \<Rightarrow> symbol \<Rightarrow> symbol \<Rightarrow> (bool \<times> int) list" where
  "slot_rules a b c =
     [(a = Seven \<and> b = Seven \<and> c = Seven, 100),
      (a = Diamond \<and> b = Diamond \<and> c = Diamond, 50),
      (a = Star \<and> b = Star \<and> c = Star, 25),
      (a = b \<and> b = c \<and> a \<notin> {Seven, Diamond, Star}, 10),
      (card {a, b, c} = 2, 2),
      (card {a, b, c} = 3, 0)]"

section \<open>Blackjack hand value (card\_value, lines 243--262 and 486--505)\<close>

text \<open>
  A card is the string \<^verbatim>\<open>f"{rank}{suit}"\<close>.  Each of the four suit strings is two code
  points long (the suit sign and a variation selector), so \<^verbatim>\<open>card[:-2]\<close> is the rank;
  a card is modelled as the pair of its rank and its suit and \<^verbatim>\<open>card[:-2]\<close> as \<open>fst\<close>.
\<close>

datatype rank = Ace | Two | Three | Four | Five | Six | Seven_r | Eight | Nine | Ten
  | Jack | Queen | King

datatype suit = Spades | Hearts | Diamonds | Clubs

type_synonym card = "rank \<times> suit"

definition suits :: "suit list" where
  "suits = [Spades, Hearts, Diamonds, Clubs]"

definition ranks :: "rank list" where
  "ranks = [Ace, Two, Three, Four, Five, Six, Seven_r, Eight, Nine, Ten, Jack, Queen, King]"

text \<open>\<^verbatim>\<open>int(rank)\<close> on the ranks written with digits.\<close>

fun int_rank :: "rank \<Rightarrow> int" where
  "int_rank Two = 2"
| "int_rank Three = 3"
| "int_rank Four = 4"
| "int_rank Five = 5"
| "int_rank Six = 6"
| "int_rank Seven_r = 7"
| "int_rank Eight = 8"
| "int_rank Nine = 9"
| "int_rank Ten = 10"
| "int_rank r = 0"

text \<open>One round of the \<^verbatim>\<open>for card in cards\<close> loop on the pair \<open>(value, aces)\<close>.\<close>

definition count_card :: "int \<times> nat \<Rightarrow> card \<Rightarrow> int \<times> nat" where
  "count_card va c =
     (let rank = fst c in
      if rank \<in> {Jack, Queen, King} then (fst va + 10, snd va)
      else if rank = Ace then (fst va + 11, snd va + 1)
      else (fst va + int_rank rank, snd va))"

text \<open>The loop \<^verbatim>\<open>while value > 21 and aces > 0\<close>; \<open>aces\<close> decreases in every round.\<close>

fun soften :: "int \<Rightarrow> nat \<Rightarrow> int" where
  "soften v 0 = v"
| "soften v (Suc aces) = (if v > 21 then soften (v - 10) aces else v)"

text \<open>
  The local function of \<^verbatim>\<open>Gambling.blackjack\<close> and the method
  \<^verbatim>\<open>BlackjackView.card_value\<close> have the same body, line for line.
\<close>

definition card_value :: "card list \<Rightarrow> int" where
  "card_value cards = (let va = foldl count_card (0, 0) cards in soften (fst va) (snd va))"

text \<open>
  Hand totals in the words of the specification: every card counts its rank, a face
  card 10, and each ace on its own either 11 or 1.  The list holds every total that
  some choice for the aces achieves.
\<close>

fun hand_totals :: "card list \<Rightarrow> int list" where
  "hand_totals [] = [0]"
| "hand_totals (c # cs) =
     (if fst c = Ace then map (\<lambda>t. 11 + t) (hand_totals cs) @ map (\<lambda>t. 1 + t) (hand_totals cs)
      else if fst c \<in> {Jack, Queen, King} then map (\<lambda>t. 10 + t) (hand_totals cs)
      else map (\<lambda>t. int_rank (fst c) + t) (hand_totals cs))"

section \<open>Ledger store, journal and lock registry\<close>

text \<open>
  An account is the pair \<open>(guild_id, discord_id)\<close>; the lock key
  \<^verbatim>\<open>f"{guild_id}_{discord_id}"\<close> is that pair written as text.  A wallet document is
  its integer fields by name; the time stamps are left out.
\<close>

type_synonym account = "int \<times> int"

type_synonym document = "string \<rightharpoonup> int"

datatype error = IndexError | KeyError | ValueError | StoreError | AttributeError

text \<open>The values the three \<^verbatim>\<open>description\<close> format strings are rendered from.\<close>

datatype description =
    SlotsText "symbol list" int
  | BlackjackText int int int
  | RouletteText string string int

record event_doc =
  ev_guild_id :: int
  ev_discord_id :: int
  ev_amount :: int
  ev_event_type :: string
  ev_description :: description

text \<open>
  The history of a run: every lock acquisition and release, every increment the
  \<^verbatim>\<open>economy\<close> collection has applied, and every use of the random generator, in the
  order in which they happen.
\<close>

datatype effect = Acquired account | Released account | Incremented account int | Drawn

text \<open>
  The state the commands work on: the two collections, whether each of them accepts
  operations (a collection that is down raises on every call), the keys of
  \<^verbatim>\<open>user_locks\<close>, the history, and what \<^verbatim>\<open>logger.error\<close> has been given.
\<close>

record world =
  economy :: "account \<rightharpoonup> document"
  economy_up :: bool
  wallet_events :: "event_doc list"
  wallet_events_up :: bool
  user_locks :: "account set"
  trace :: "effect list"
  error_log :: "string list"

subsection \<open>DatabaseManager.get\_wallet and update\_wallet (database.py lines 459--501)\<close>

definition get_wallet :: "int \<Rightarrow> int \<Rightarrow> world \<Rightarrow> (error + document) \<times> world" where
  "get_wallet guild_id discord_id w =
     (if \<not> economy_up w then (Inl StoreError, w)
      else case economy w (guild_id, discord_id) of
             Some wallet \<Rightarrow> (Inr wallet, w)
           | None \<Rightarrow>
               (let wallet = [''balance'' \<mapsto> 0, ''total_earned'' \<mapsto> 0, ''total_spent'' \<mapsto> 0]
                in (Inr wallet, w\<lparr>economy := (economy w)((guild_id, discord_id) \<mapsto> wallet)\<rparr>)))"

text \<open>
  The \<^verbatim>\<open>$inc\<close> operator adds to a field and creates a field that is absent with the
  increment as its value.
\<close>

fun inc :: "(string \<times> int) list \<Rightarrow> document \<Rightarrow> document" where
  "inc [] doc = doc"
| "inc ((field, amount) # rest) doc =
     inc rest (doc(field \<mapsto> (case doc field of None \<Rightarrow> amount | Some v \<Rightarrow> v + amount)))"

text \<open>
  \<^verbatim>\<open>update_one\<close> with \<^verbatim>\<open>upsert=True\<close>: a missing document is created from the filter
  and the increments.  The parameter \<open>transaction_type\<close> is not used by the body.
  An exception of the collection is caught, logged and answered with \<^verbatim>\<open>False\<close>; a
  write that the collection accepts is acknowledged and answered with \<^verbatim>\<open>True\<close>, and
  enters the history.
\<close>

definition update_wallet :: "int \<Rightarrow> int \<Rightarrow> int \<Rightarrow> string \<Rightarrow> world \<Rightarrow> bool \<times> world" where
  "update_wallet guild_id discord_id amount transaction_type w =
     (let inc_updates = (''balance'', amount) #
            (if amount > 0 then [(''total_earned'', amount)] else [(''total_spent'', \<bar>amount\<bar>)])
      in if economy_up w then
           (True, w\<lparr>economy := (economy w)((guild_id, discord_id) \<mapsto>
                        inc inc_updates (case economy w (guild_id, discord_id) of
                                           None \<Rightarrow> Map.empty | Some doc \<Rightarrow> doc)),
                    trace := trace w @ [Incremented (guild_id, discord_id) amount]\<rparr>)
         else (False, w\<lparr>error_log := error_log w @ [''Failed to update wallet'']\<rparr>))"

text \<open>
  \<^verbatim>\<open>get_wallet\<close> followed by \<^verbatim>\<open>wallet['balance']\<close>, as every command reads the balance;
  a document without the field raises \<^verbatim>\<open>KeyError\<close>.
\<close>

definition read_balance :: "int \<Rightarrow> int \<Rightarrow> world \<Rightarrow> (error + int) \<times> world" where
  "read_balance guild_id discord_id w =
     (case get_wallet guild_id discord_id w of
        (Inl e, w') \<Rightarrow> (Inl e, w')
      | (Inr wallet, w') \<Rightarrow>
          (case wallet ''balance'' of None \<Rightarrow> (Inl KeyError, w') | Some b \<Rightarrow> (Inr b, w')))"

subsection \<open>Gambling.add\_wallet\_event (gambling\_broken.py lines 52--68)\<close>

definition insert_one :: "event_doc \<Rightarrow> world \<Rightarrow> error + world" where
  "insert_one doc w =
     (if wallet_events_up w then Inr (w\<lparr>wallet_events := wallet_events w @ [doc]\<rparr>)
      else Inl StoreError)"

text \<open>
  The result type is that of any call: the world on return, or the exception that
  leaves the call.  The body is one \<^verbatim>\<open>try\<close> whose handler logs.
\<close>

definition add_wallet_event ::
  "int \<Rightarrow> int \<Rightarrow> int \<Rightarrow> string \<Rightarrow> description \<Rightarrow> world \<Rightarrow> error + world" where
  "add_wallet_event guild_id discord_id amount event_type description w =
     (let event_doc = \<lparr>ev_guild_id = guild_id, ev_discord_id = discord_id, ev_amount = amount,
                       ev_event_type = event_type, ev_description = description\<rparr>
      in case insert_one event_doc w of
           Inr w' \<Rightarrow> Inr w'
         | Inl e \<Rightarrow> Inr (w\<lparr>error_log := error_log w @ [''Failed to add wallet event'']\<rparr>))"

subsection \<open>Gambling.get\_user\_lock and the \<^verbatim>\<open>async with\<close> block\<close>

definition get_user_lock :: "account \<Rightarrow> world \<Rightarrow> world" where
  "get_user_lock user_key w =
     (if user_key \<notin> user_locks w then w\<lparr>user_locks := insert user_key (user_locks w)\<rparr> else w)"

text \<open>
  The block runs with the lock held and releases it on every exit, also when the body
  raises.
\<close>

definition with_user_lock ::
  "account \<Rightarrow> (world \<Rightarrow> (error + 'a) \<times> world) \<Rightarrow> world \<Rightarrow> (error + 'a) \<times> world" where
  "with_user_lock user_key body w =
     (let w1 = get_user_lock user_key w;
          w2 = w1\<lparr>trace := trace w1 @ [Acquired user_key]\<rparr>
      in case body w2 of (r, w3) \<Rightarrow> (r, w3\<lparr>trace := trace w3 @ [Released user_key]\<rparr>))"

text \<open>
  What the three commands do after a settled update: journal the net result, read the
  wallet again and take its balance for the final display.
\<close>

definition journal_and_balance ::
  "int \<Rightarrow> int \<Rightarrow> int \<Rightarrow> string \<Rightarrow> description \<Rightarrow> world \<Rightarrow> (error + int) \<times> world" where
  "journal_and_balance guild_id discord_id net_result event_type description w =
     (case add_wallet_event guild_id discord_id net_result event_type description w of
        Inl e \<Rightarrow> (Inl e, w)
      | Inr w' \<Rightarrow> read_balance guild_id discord_id w')"

section \<open>The commands (gambling\_broken.py)\<close>

text \<open>
  What a command or a button tells the user.  Embeds are reduced to the values they
  show; the rendering (\<^verbatim>\<open>EmbedFactory\<close>, \<^verbatim>\<open>ctx.respond\<close>, the animation pauses) is
  outside the model and is taken to succeed.  \<open>GameFailed\<close> is the message of a
  command's outermost handler, \<open>Raised\<close> an exception that leaves a button callback,
  which has no handler, and \<open>NoReply\<close> a return without any message.
\<close>

text \<open>
  Of the context object \<^verbatim>\<open>ctx\<close> the model keeps whether it has an attribute
  \<^verbatim>\<open>edit_original_response\<close>.  The commands are declared on
  \<^verbatim>\<open>discord.ApplicationContext\<close> of py-cord (the repository pins 2.6.1), which offers
  \<^verbatim>\<open>respond\<close>, \<^verbatim>\<open>defer\<close> and \<^verbatim>\<open>followup\<close> but no such attribute: there the call
  \<^verbatim>\<open>ctx.edit_original_response(...)\<close> of roulette and blackjack raises
  \<^verbatim>\<open>AttributeError\<close>.  Slots edits through the response that \<^verbatim>\<open>ctx.respond\<close> returned
  and the buttons through \<^verbatim>\<open>interaction.response\<close>, which exist.
\<close>

record command_context =
  has_edit_original_response :: bool

definition application_context :: command_context where
  "application_context = \<lparr>has_edit_original_response = False\<rparr>"

definition edit_original_response :: "command_context \<Rightarrow> error + unit" where
  "edit_original_response ctx =
     (if has_edit_original_response ctx then Inr () else Inl AttributeError)"

datatype result_text = BothBlackjack | Blackjack | Bust | DealerBust | YouWin | DealerWins | Tie

datatype reply =
    PremiumRequired
  | BetNotPositive
  | BetAboveMaximum int
  | InvalidChoice
  | InsufficientFunds int int
  | SlotsResult bool int int
  | YourTurn "card list" "card list" int int
  | BlackjackResult result_text int int
  | RouletteResult string int int int
  | BetFailed
  | GameFailed
  | NoReply
  | Raised error

text \<open>The rejections the specification calls \<^verbatim>\<open>InvalidBet\<close>.\<close>

fun InvalidBet :: "reply \<Rightarrow> bool" where
  "InvalidBet BetNotPositive = True"
| "InvalidBet (BetAboveMaximum m) = True"
| "InvalidBet InvalidChoice = True"
| "InvalidBet r = False"

text \<open>The outermost \<^verbatim>\<open>except Exception\<close> of a command: log and answer with the failure message.\<close>

definition handled :: "'a \<Rightarrow> (error + 'a) \<times> world \<Rightarrow> 'a \<times> world" where
  "handled failure rw =
     (case rw of
        (Inr r, w) \<Rightarrow> (r, w)
      | (Inl e, w) \<Rightarrow> (failure, w\<lparr>error_log := error_log w @ [''Failed to process'']\<rparr>))"

subsection \<open>Gambling.slots (lines 70--179)\<close>

text \<open>\<^verbatim>\<open>win\<close> is set in every branch of the cascade that assigns \<^verbatim>\<open>winnings\<close>.\<close>

definition slots_win :: "symbol list \<Rightarrow> bool" where
  "slots_win reels =
     (reels ! 0 = reels ! 1 \<and> reels ! 1 = reels ! 2
      \<or> reels ! 0 = reels ! 1 \<or> reels ! 1 = reels ! 2 \<or> reels ! 0 = reels ! 2)"

definition slots_locked ::
  "int \<Rightarrow> int \<Rightarrow> int \<Rightarrow> symbol list \<Rightarrow> world \<Rightarrow> (error + reply) \<times> world" where
  "slots_locked guild_id discord_id bet reels w =
     (case read_balance guild_id discord_id w of
        (Inl e, w1) \<Rightarrow> (Inl e, w1)
      | (Inr balance, w1) \<Rightarrow>
         (if balance < bet then (Inr (InsufficientFunds balance bet), w1)
          else
            let w2 = snd (update_wallet guild_id discord_id (- bet) ''gambling_slots'' w1);
                w3 = w2\<lparr>trace := trace w2 @ [Drawn]\<rparr>;
                winnings = slots_winnings bet reels;
                win = slots_win reels;
                w4 = (if winnings > 0
                      then snd (update_wallet guild_id discord_id winnings ''gambling_slots'' w3)
                      else w3);
                net_result = winnings - bet
            in (case journal_and_balance guild_id discord_id net_result ''gambling_slots''
                       (SlotsText reels bet) w4 of
                  (Inl e, w5) \<Rightarrow> (Inl e, w5)
                | (Inr new_balance, w5) \<Rightarrow>
                    (Inr (SlotsResult win (if win then winnings else 0) new_balance), w5))))"

text \<open>
  The three draws of \<^verbatim>\<open>random.choices\<close> are the inputs \<open>s0\<close>, \<open>s1\<close>, \<open>s2\<close>, and
  \<open>premium\<close> is the answer of \<^verbatim>\<open>check_premium_server\<close>.
\<close>

definition slots ::
  "bool \<Rightarrow> int \<Rightarrow> int \<Rightarrow> int \<Rightarrow> symbol \<Rightarrow> symbol \<Rightarrow> symbol \<Rightarrow> world \<Rightarrow> reply \<times> world" where
  "slots premium guild_id discord_id bet s0 s1 s2 w =
     (if \<not> premium then (PremiumRequired, w)
      else if bet \<le> 0 then (BetNotPositive, w)
      else if bet > 10000 then (BetAboveMaximum 10000, w)
      else handled GameFailed
             (with_user_lock (guild_id, discord_id)
                (slots_locked guild_id discord_id bet [s0, s1, s2]) w))"

subsection \<open>Gambling.roulette (lines 327--469)\<close>

text \<open>\<^verbatim>\<open>str.lower\<close> on text in ASCII.\<close>

definition lower :: "string \<Rightarrow> string" where
  "lower s = map (\<lambda>c. let n = (of_char c :: nat) in
                        if 65 \<le> n \<and> n \<le> 90 then char_of (n + 32) else c) s"

text \<open>\<^verbatim>\<open>str(i)\<close> for the numbers of \<^verbatim>\<open>range(1, 37)\<close>: the decimal digits.\<close>

function str :: "nat \<Rightarrow> string" where
  "str n = (if n < 10 then [char_of (48 + n)] else str (n div 10) @ [char_of (48 + n mod 10)])"
  by pat_completeness auto
termination
  by (relation "measure id") auto

declare str.simps [simp del]

text \<open>
  \<^verbatim>\<open>int(result)\<close> on a text of decimal digits; anything else is answered with
  \<^verbatim>\<open>ValueError\<close> here (the drawn results hold digits only).
\<close>

definition py_int :: "string \<Rightarrow> error + int" where
  "py_int s =
     (if s \<noteq> [] \<and> (\<forall>c \<in> set s. 48 \<le> (of_char c :: nat) \<and> (of_char c :: nat) \<le> 57)
      then Inr (foldl (\<lambda>a c. 10 * a + (int (of_char c) - 48)) 0 s)
      else Inl ValueError)"

definition valid_choices :: "string set" where
  "valid_choices =
     set ([''red'', ''black'', ''odd'', ''even'', ''low'', ''high'', ''0'', ''00'']
          @ map str [1..<37])"

definition red_numbers :: "int set" where
  "red_numbers = {1, 3, 5, 7, 9, 12, 14, 16, 18, 19, 21, 23, 25, 27, 30, 32, 34, 36}"

definition black_numbers :: "int set" where
  "black_numbers = {2, 4, 6, 8, 10, 11, 13, 15, 17, 20, 22, 24, 26, 28, 29, 31, 33, 35}"

definition spin_options :: "string list" where
  "spin_options = [''0'', ''00''] @ map str [1..<37]"

definition roulette_winnings :: "int \<Rightarrow> string \<Rightarrow> string \<Rightarrow> error + int" where
  "roulette_winnings bet choice_lower result =
     (if choice_lower = result then Inr (bet * 35)
      else if result \<notin> set [''0'', ''00''] then
        (case py_int result of
           Inl e \<Rightarrow> Inl e
         | Inr result_num \<Rightarrow>
             Inr (if choice_lower = ''red'' \<and> result_num \<in> red_numbers then bet * 2
                  else if choice_lower = ''black'' \<and> result_num \<in> black_numbers then bet * 2
                  else if choice_lower = ''odd'' \<and> result_num mod 2 = 1 then bet * 2
                  else if choice_lower = ''even'' \<and> result_num mod 2 = 0 then bet * 2
                  else if choice_lower = ''low'' \<and> 1 \<le> result_num \<and> result_num \<le> 18 then bet * 2
                  else if choice_lower = ''high'' \<and> 19 \<le> result_num \<and> result_num \<le> 36 then bet * 2
                  else 0))
      else Inr 0)"

text \<open>
  The body of the \<^verbatim>\<open>async with\<close> block.  The first frame of the spinning animation is
  shown with \<^verbatim>\<open>ctx.edit_original_response\<close> before the wheel is drawn, and the final
  embed with the same call after the journal entry (the two later frames go through
  the same attribute of the same context).
\<close>

definition roulette_locked ::
  "command_context \<Rightarrow> int \<Rightarrow> int \<Rightarrow> int \<Rightarrow> string \<Rightarrow> string \<Rightarrow> world
     \<Rightarrow> (error + reply) \<times> world" where
  "roulette_locked ctx guild_id discord_id bet choice result w =
     (case read_balance guild_id discord_id w of
        (Inl e, w1) \<Rightarrow> (Inl e, w1)
      | (Inr balance, w1) \<Rightarrow>
         (if balance < bet then (Inr (InsufficientFunds balance bet), w1)
          else
           (case edit_original_response ctx of
              Inl e \<Rightarrow> (Inl e, w1)
            | Inr spinning \<Rightarrow>
                let w2 = w1\<lparr>trace := trace w1 @ [Drawn]\<rparr> in
               (case roulette_winnings bet (lower choice) result of
                  Inl e \<Rightarrow> (Inl e, w2)
                | Inr winnings \<Rightarrow>
                    let net_result = winnings - bet;
                        sw = update_wallet guild_id discord_id net_result ''gambling_roulette'' w2
                    in if fst sw then
                         (case journal_and_balance guild_id discord_id net_result
                                 ''gambling_roulette'' (RouletteText result choice bet) (snd sw) of
                            (Inl e, w4) \<Rightarrow> (Inl e, w4)
                          | (Inr new_balance, w4) \<Rightarrow>
                              (case edit_original_response ctx of
                                 Inl e \<Rightarrow> (Inl e, w4)
                               | Inr shown \<Rightarrow>
                                   (Inr (RouletteResult result winnings net_result new_balance),
                                    w4)))
                       else (Inr BetFailed, snd sw)))))"

text \<open>\<open>result\<close> is the draw of \<^verbatim>\<open>random.choice(spin_options)\<close>.\<close>

definition roulette ::
  "command_context \<Rightarrow> bool \<Rightarrow> int \<Rightarrow> int \<Rightarrow> int \<Rightarrow> string \<Rightarrow> string \<Rightarrow> world
     \<Rightarrow> reply \<times> world" where
  "roulette ctx premium guild_id discord_id bet choice result w =
     (if \<not> premium then (PremiumRequired, w)
      else if bet \<le> 0 then (BetNotPositive, w)
      else if bet > 2000 then (BetAboveMaximum 2000, w)
      else if lower choice \<notin> valid_choices then (InvalidChoice, w)
      else handled GameFailed
             (with_user_lock (guild_id, discord_id)
                (roulette_locked ctx guild_id discord_id bet choice result) w))"

subsection \<open>BlackjackView (lines 472--595)\<close>

text \<open>\<^verbatim>\<open>list.pop()\<close> takes the last element and raises \<^verbatim>\<open>IndexError\<close> on an empty list.\<close>

definition pop :: "'a list \<Rightarrow> error + ('a \<times> 'a list)" where
  "pop xs = (if xs = [] then Inl IndexError else Inr (last xs, butlast xs))"

text \<open>The fields of the view; \<^verbatim>\<open>self.bot\<close> is the world the callbacks are given.\<close>

record blackjack_view =
  self_deck :: "card list"
  self_player_cards :: "card list"
  self_dealer_cards :: "card list"
  self_bet :: int
  self_guild_id :: int
  self_discord_id :: int
  self_game_over :: bool

text \<open>
  \<^verbatim>\<open>end_game\<close> sets the flag before anything else.  The cog that created the view is
  loaded, so \<^verbatim>\<open>get_cog\<close> finds it.
\<close>

definition end_game ::
  "blackjack_view \<Rightarrow> result_text \<Rightarrow> int \<Rightarrow> world \<Rightarrow> reply \<times> blackjack_view \<times> world" where
  "end_game self result_text net_result w =
     (let self1 = self\<lparr>self_game_over := True\<rparr>;
          sw = update_wallet (self_guild_id self1) (self_discord_id self1) net_result
                 ''gambling_blackjack'' w
      in if fst sw then
           (case journal_and_balance (self_guild_id self1) (self_discord_id self1) net_result
                   ''gambling_blackjack''
                   (BlackjackText (card_value (self_player_cards self1))
                                  (card_value (self_dealer_cards self1)) (self_bet self1))
                   (snd sw) of
              (Inl e, w2) \<Rightarrow> (Raised e, self1, w2)
            | (Inr new_balance, w2) \<Rightarrow> (BlackjackResult result_text net_result new_balance, self1, w2))
         else (BetFailed, self1, snd sw))"

definition hit_button :: "blackjack_view \<Rightarrow> world \<Rightarrow> reply \<times> blackjack_view \<times> world" where
  "hit_button self w =
     (if self_game_over self then (NoReply, self, w)
      else case pop (self_deck self) of
             Inl e \<Rightarrow> (Raised e, self, w)
           | Inr (c, deck) \<Rightarrow>
               let self1 = self\<lparr>self_deck := deck, self_player_cards := self_player_cards self @ [c]\<rparr>;
                   player_value = card_value (self_player_cards self1)
               in if player_value > 21 then end_game self1 Bust (- self_bet self1) w
                  else (case self_dealer_cards self1 of
                          [] \<Rightarrow> (Raised IndexError, self1, w)
                        | d # ds \<Rightarrow>
                            (YourTurn (self_player_cards self1) [d] player_value (card_value [d]),
                             self1, w)))"

text \<open>
  The dealer's loop \<^verbatim>\<open>while dealer_value < 17\<close> on the pair of \<^verbatim>\<open>self.deck\<close> and
  \<^verbatim>\<open>self.dealer_cards\<close>.  A deck that runs out raises inside the loop, with the cards
  drawn so far already appended.
\<close>

fun dealer_plays :: "card list \<Rightarrow> card list \<Rightarrow> error option \<times> card list \<times> card list" where
  "dealer_plays deck dealer_cards =
     (if card_value dealer_cards < 17 then
        (if deck = [] then (Some IndexError, deck, dealer_cards)
         else dealer_plays (butlast deck) (dealer_cards @ [last deck]))
      else (None, deck, dealer_cards))"

declare dealer_plays.simps [simp del]

definition stand_button :: "blackjack_view \<Rightarrow> world \<Rightarrow> reply \<times> blackjack_view \<times> world" where
  "stand_button self w =
     (if self_game_over self then (NoReply, self, w)
      else case dealer_plays (self_deck self) (self_dealer_cards self) of
             (Some e, deck, dealer_cards) \<Rightarrow>
               (Raised e, self\<lparr>self_deck := deck, self_dealer_cards := dealer_cards\<rparr>, w)
           | (None, deck, dealer_cards) \<Rightarrow>
               let self1 = self\<lparr>self_deck := deck, self_dealer_cards := dealer_cards\<rparr>;
                   dealer_value = card_value (self_dealer_cards self1);
                   player_value = card_value (self_player_cards self1)
               in if dealer_value > 21 then end_game self1 DealerBust (self_bet self1) w
                  else if player_value > dealer_value then end_game self1 YouWin (self_bet self1) w
                  else if dealer_value > player_value then end_game self1 DealerWins (- self_bet self1) w
                  else end_game self1 Tie 0 w)"

text \<open>The player's clicks, and a session as the clicks handled one after the other.\<close>

datatype action = Hit | Stand

fun press :: "action \<Rightarrow> blackjack_view \<Rightarrow> world \<Rightarrow> reply \<times> blackjack_view \<times> world" where
  "press Hit self w = hit_button self w"
| "press Stand self w = stand_button self w"

fun play :: "action list \<Rightarrow> blackjack_view \<Rightarrow> world \<Rightarrow> blackjack_view \<times> world" where
  "play [] self w = (self, w)"
| "play (a # as) self w = (case press a self w of (r, self1, w1) \<Rightarrow> play as self1 w1)"

subsection \<open>Gambling.blackjack (lines 181--325)\<close>

text \<open>
  The deck before \<^verbatim>\<open>random.shuffle\<close>, built by the comprehension
  \<^verbatim>\<open>for suit in suits for rank in ranks\<close>.
\<close>

definition new_deck :: "card list" where
  "new_deck = concat (map (\<lambda>suit. map (\<lambda>rank. (rank, suit)) ranks) suits)"

text \<open>
  \<^verbatim>\<open>player_cards = [deck.pop(), deck.pop()]\<close> and the same for the dealer; the result is
  the two hands and what is left of the deck.
\<close>

definition deal :: "card list \<Rightarrow> error + (card list \<times> card list \<times> card list)" where
  "deal deck =
     (case pop deck of Inl e \<Rightarrow> Inl e | Inr (p1, deck1) \<Rightarrow>
       (case pop deck1 of Inl e \<Rightarrow> Inl e | Inr (p2, deck2) \<Rightarrow>
         (case pop deck2 of Inl e \<Rightarrow> Inl e | Inr (d1, deck3) \<Rightarrow>
           (case pop deck3 of Inl e \<Rightarrow> Inl e | Inr (d2, deck4) \<Rightarrow>
              Inr ([p1, p2], [d1, d2], deck4)))))"

text \<open>
  \<^verbatim>\<open>int(bet * 2.5)\<close>.  The command has checked \<open>0 < bet \<le> 5000\<close> before: on that range
  the product is a multiple of one half that binary floating point holds exactly, and
  \<^verbatim>\<open>int\<close> cuts the half off, so the value is the integer quotient of \<open>5 * bet\<close> by 2.
\<close>

definition blackjack_winnings :: "int \<Rightarrow> int" where
  "blackjack_winnings bet = (bet * 5) div 2"

text \<open>
  The body of the \<^verbatim>\<open>async with\<close> block.  The deck is shuffled first; the dealing
  animation is shown with \<^verbatim>\<open>ctx.edit_original_response\<close> before the cards are dealt, and
  the same call shows the player's turn or the final embed.
\<close>

definition blackjack_locked ::
  "command_context \<Rightarrow> int \<Rightarrow> int \<Rightarrow> int \<Rightarrow> card list \<Rightarrow> world
     \<Rightarrow> (error + reply \<times> blackjack_view option) \<times> world" where
  "blackjack_locked ctx guild_id discord_id bet deck w =
     (case read_balance guild_id discord_id w of
        (Inl e, w1) \<Rightarrow> (Inl e, w1)
      | (Inr balance, w1) \<Rightarrow>
         (if balance < bet then (Inr (InsufficientFunds balance bet, None), w1)
          else
            let w2 = w1\<lparr>trace := trace w1 @ [Drawn]\<rparr> in
           (case edit_original_response ctx of
              Inl e \<Rightarrow> (Inl e, w2)
            | Inr dealing \<Rightarrow>
               (case deal deck of
                  Inl e \<Rightarrow> (Inl e, w2)
                | Inr (player_cards, dealer_cards, deck') \<Rightarrow>
                    let player_value = card_value player_cards;
                        dealer_value_hidden = card_value [dealer_cards ! 0];
                        dealer_value = card_value dealer_cards
                    in if player_value = 21 then
                         let result_text = (if dealer_value = 21 then BothBlackjack else Blackjack);
                             net_result = (if dealer_value = 21 then 0
                                           else blackjack_winnings bet - bet);
                             sw = update_wallet guild_id discord_id net_result
                                    ''gambling_blackjack'' w2
                         in if fst sw then
                              (case journal_and_balance guild_id discord_id net_result
                                      ''gambling_blackjack''
                                      (BlackjackText player_value dealer_value bet) (snd sw) of
                                 (Inl e, w4) \<Rightarrow> (Inl e, w4)
                               | (Inr new_balance, w4) \<Rightarrow>
                                   (case edit_original_response ctx of
                                      Inl e \<Rightarrow> (Inl e, w4)
                                    | Inr shown \<Rightarrow>
                                        (Inr (BlackjackResult result_text net_result new_balance,
                                              None), w4)))
                            else (Inr (NoReply, None), snd sw)
                       else
                        (case edit_original_response ctx of
                           Inl e \<Rightarrow> (Inl e, w2)
                         | Inr shown \<Rightarrow>
                             (Inr (YourTurn player_cards [dealer_cards ! 0] player_value
                                     dealer_value_hidden,
                                   Some \<lparr>self_deck = deck', self_player_cards = player_cards,
                                         self_dealer_cards = dealer_cards, self_bet = bet,
                                         self_guild_id = guild_id, self_discord_id = discord_id,
                                         self_game_over = False\<rparr>),
                              w2))))))"

text \<open>
  \<open>deck\<close> is the deck after \<^verbatim>\<open>random.shuffle\<close>.  The command answers with a message
  and, when the hand goes on, with the view that carries the buttons.
\<close>

definition blackjack ::
  "command_context \<Rightarrow> bool \<Rightarrow> int \<Rightarrow> int \<Rightarrow> int \<Rightarrow> card list \<Rightarrow> world
     \<Rightarrow> (reply \<times> blackjack_view option) \<times> world" where
  "blackjack ctx premium guild_id discord_id bet deck w =
     (if \<not> premium then ((PremiumRequired, None), w)
      else if bet \<le> 0 then ((BetNotPositive, None), w)
      else if bet > 5000 then ((BetAboveMaximum 5000, None), w)
      else handled (GameFailed, None)
             (with_user_lock (guild_id, discord_id)
                (blackjack_locked ctx guild_id discord_id bet deck) w))"

text \<open>The part of a hand's total that does not depend on a choice, and the number of its aces.\<close>

definition base :: "card list \<Rightarrow> int" where
  "base cards = (\<Sum>c\<leftarrow>cards. if fst c = Ace then 0 else if fst c \<in> {Jack, Queen, King} then 10 else int_rank (fst c))"

definition aces_in :: "card list \<Rightarrow> nat" where
  "aces_in cards = length (filter (\<lambda>c. fst c = Ace) cards)"

section \<open>Notions of the specification and states to evaluate on\<close>

text \<open>
  The roulette rules in the words of the specification.  An outside bet (a colour, a
  parity or a half of the table) is satisfied by a number \<open>n\<close> of the wheel; the two
  zero pockets are not numbers in this sense.
\<close>

definition outside_pays :: "string \<Rightarrow> nat \<Rightarrow> bool" where
  "outside_pays choice n =
     (choice = ''red'' \<and> int n \<in> red_numbers \<or> choice = ''black'' \<and> int n \<in> black_numbers \<or>
      choice = ''odd'' \<and> odd n \<or> choice = ''even'' \<and> even n \<or>
      choice = ''low'' \<and> 1 \<le> n \<and> n \<le> 18 \<or> choice = ''high'' \<and> 19 \<le> n \<and> n \<le> 36)"

definition outside_bet_won :: "string \<Rightarrow> string \<Rightarrow> bool" where
  "outside_bet_won choice result = (\<exists>n \<in> set [1..<37]. result = str n \<and> outside_pays choice n)"

definition zero_pocket :: "string \<Rightarrow> bool" where
  "zero_pocket result = (result \<in> set [''0'', ''00''])"

text \<open>
  A state to evaluate the commands on: one wallet of 100 units for account \<open>(1, 2)\<close>,
  both collections up, nothing journalled and no lock created yet.
\<close>

definition funded_world :: world where
  "funded_world =
     \<lparr>economy = [(1, 2) \<mapsto> [''balance'' \<mapsto> 100, ''total_earned'' \<mapsto> 100, ''total_spent'' \<mapsto> 0]],
      economy_up = True, wallet_events = [], wallet_events_up = True,
      user_locks = {}, trace = [], error_log = []\<rparr>"

text \<open>
  A context that does have the attribute, as a context of another library version or a
  patched one would; on it the calls of roulette and blackjack succeed.
\<close>

definition editing_context :: command_context where
  "editing_context = \<lparr>has_edit_original_response = True\<rparr>"

text \<open>The ledger deltas of a history, in the order in which the store applied them.\<close>

fun increments :: "effect list \<Rightarrow> int list" where
  "increments [] = []"
| "increments (Incremented k amount # es) = amount # increments es"
| "increments (e # es) = increments es"

text \<open>
  A shuffled deck that deals a dealt 21: the ace of spades moved to the end of the new
  deck, so that the player is dealt that ace and the king of clubs and the dealer the
  queen and the jack of clubs.
\<close>

definition stacked_deck :: "card list" where
  "stacked_deck = remove1 (Ace, Spades) new_deck @ [(Ace, Spades)]"

text \<open>
  A view in the player's turn whose next card busts the hand: 20 on the table and the
  king of hearts on top of the deck.
\<close>

definition busting_view :: blackjack_view where
  "busting_view =
     \<lparr>self_deck = [(Two, Hearts), (King, Hearts)],
      self_player_cards = [(King, Spades), (Queen, Spades)],
      self_dealer_cards = [(Nine, Clubs), (Eight, Clubs)],
      self_bet = 10, self_guild_id = 1, self_discord_id = 2, self_game_over = False\<rparr>"

section \<open>The slot machine pays by exactly one rule\<close>

lemma slot_rules_one_applies: "length (filter fst (slot_rules a b c)) = 1"
  by (cases "a = b"; cases "b = c"; cases "a = c")
     (auto simp: slot_rules_def card_insert_if)

lemma slot_rules_payout:
  "\<forall>r \<in> set (slot_rules a b c). fst r \<longrightarrow> slots_winnings bet [a, b, c] = snd r * bet"
  by (cases "a = b"; cases "b = c"; cases "a = c")
     (auto simp: slot_rules_def slots_winnings_def card_insert_if)

text \<open>
  Claim C5.  For every draw of three symbols and every stake, exactly one of the six
  rules of the payout table applies (three sevens 100, three gems 50, three stars 25,
  any other three of a kind 10, exactly two alike 2, all different 0), and the winnings
  the command computes are the stake times the multiple of the rule that applies.
\<close>

theorem slots_payout_table:
  "length (filter fst (slot_rules a b c)) = 1 \<and>
   (\<forall>r \<in> set (slot_rules a b c). fst r \<longrightarrow> slots_winnings bet [a, b, c] = snd r * bet)"
  using slot_rules_one_applies slot_rules_payout by blast

theorem slots_payout_table_witness:
  "slots_winnings 3 [Seven, Seven, Seven] = 300 \<and> slots_winnings 3 [Cherry, Cherry, Lemon] = 6
   \<and> slots_winnings 3 [Cherry, Star, Lemon] = 0"
  using slots_payout_table [of Seven Seven Seven 3] slots_payout_table [of Cherry Cherry Lemon 3]
    slots_payout_table [of Cherry Star Lemon 3]
  by (simp add: slot_rules_def)

section \<open>The hand value is the best achievable total\<close>

lemma foldl_count_card: "foldl count_card (v, a) cards = (v + base cards + 11 * int (aces_in cards), a + aces_in cards)"
  by (induction cards arbitrary: v a) (auto simp: count_card_def base_def aces_in_def Let_def)

lemma hand_totals_set: "set (hand_totals cards) = {base cards + int (aces_in cards) + 10 * int k | k. k \<le> aces_in cards}"
proof (induction cards)
  case Nil
  then show ?case by (simp add: base_def aces_in_def)
next
  case (Cons c cs)
  show ?case
  proof (cases "fst c = Ace")
    case True
    have "set (hand_totals (c # cs)) = (\<lambda>t. 11 + t) ` set (hand_totals cs) \<union> (\<lambda>t. 1 + t) ` set (hand_totals cs)"
      using True by simp
    also have "\<dots> = {base (c # cs) + int (aces_in (c # cs)) + 10 * int k | k. k \<le> aces_in (c # cs)}" (is "?L = ?R")
    proof (rule set_eqI)
      fix x
      have b: "base (c # cs) = base cs" "aces_in (c # cs) = Suc (aces_in cs)"
        using True by (simp_all add: base_def aces_in_def)
      show "x \<in> ?L \<longleftrightarrow> x \<in> ?R"
      proof
        assume "x \<in> ?L"
        then consider k where "k \<le> aces_in cs" "x = 11 + (base cs + int (aces_in cs) + 10 * int k)"
          | k where "k \<le> aces_in cs" "x = 1 + (base cs + int (aces_in cs) + 10 * int k)"
          unfolding Cons.IH by auto
        then show "x \<in> ?R"
        proof cases
          case 1
          then have "Suc k \<le> aces_in (c # cs)" "x = base (c # cs) + int (aces_in (c # cs)) + 10 * int (Suc k)"
            by (simp_all add: b)
          then show ?thesis by blast
        next
          case 2
          then have "k \<le> aces_in (c # cs)" "x = base (c # cs) + int (aces_in (c # cs)) + 10 * int k"
            by (simp_all add: b)
          then show ?thesis by blast
        qed
      next
        assume "x \<in> ?R"
        then obtain k where k: "k \<le> Suc (aces_in cs)" "x = base cs + int (Suc (aces_in cs)) + 10 * int k"
          unfolding b by blast
        show "x \<in> ?L"
        proof (cases "k \<le> aces_in cs")
          case True
          then have "x - 1 \<in> set (hand_totals cs)" unfolding Cons.IH using k by auto
          then have "1 + (x - 1) \<in> (\<lambda>t. 1 + t) ` set (hand_totals cs)" by (rule imageI)
          then show ?thesis by simp
        next
          case False
          then have "k = Suc (aces_in cs)" using k by simp
          then have "x - 11 = base cs + int (aces_in cs) + 10 * int (aces_in cs)" using k by simp
          then have "x - 11 \<in> set (hand_totals cs)" unfolding Cons.IH by blast
          then have "11 + (x - 11) \<in> (\<lambda>t. 11 + t) ` set (hand_totals cs)" by (rule imageI)
          then show ?thesis by simp
        qed
      qed
    qed
    finally show ?thesis .
  next
    case False
    then show ?thesis
      by (auto simp: Cons.IH base_def aces_in_def image_def)
  qed
qed

lemma soften_result:
  "\<exists>j \<le> a. soften v a = v - 10 * int j \<and> (soften v a \<le> 21 \<or> j = a) \<and> (\<forall>i < j. v - 10 * int i > 21)"
proof (induction a arbitrary: v)
  case 0
  then show ?case by simp
next
  case (Suc a)
  show ?case
  proof (cases "v > 21")
    case False
    then show ?thesis by (intro exI[of _ 0]) simp
  next
    case True
    from Suc.IH[of "v - 10"] obtain j where j: "j \<le> a" "soften (v - 10) a = v - 10 - 10 * int j"
      "soften (v - 10) a \<le> 21 \<or> j = a" "\<forall>i < j. v - 10 - 10 * int i > 21" by blast
    have "\<forall>i < Suc j. v - 10 * int i > 21"
    proof (intro allI impI)
      fix i assume "i < Suc j"
      show "v - 10 * int i > 21"
      proof (cases i)
        case 0 then show ?thesis using True by simp
      next
        case (Suc i')
        then have "i' < j" using \<open>i < Suc j\<close> by simp
        then show ?thesis using j(4) Suc by auto
      qed
    qed
    then show ?thesis using True j by (intro exI[of _ "Suc j"]) auto
  qed
qed

text \<open>
  Claim C7.  The value of a hand is one of the totals that the cards achieve with each
  ace counted as 11 or as 1; when some achievable total is at most 21 the value is the
  largest of those, and otherwise it is the least achievable total.
\<close>

theorem card_value_best_total:
  "card_value cards \<in> set (hand_totals cards) \<and>
   (if \<exists>t \<in> set (hand_totals cards). t \<le> 21
    then card_value cards \<le> 21 \<and> (\<forall>t \<in> set (hand_totals cards). t \<le> 21 \<longrightarrow> t \<le> card_value cards)
    else (\<forall>t \<in> set (hand_totals cards). card_value cards \<le> t))"
proof -
  define n where "n = aces_in cards"
  define m where "m = base cards + int n"
  have arith: "0 + base cards + 11 * int (aces_in cards) = m + 10 * int n"
    by (simp add: m_def n_def)
  have cv: "card_value cards = soften (m + 10 * int n) n"
    unfolding card_value_def Let_def foldl_count_card fst_conv snd_conv arith by (simp add: n_def)
  have ts: "set (hand_totals cards) = {m + 10 * int k | k. k \<le> n}"
    by (simp add: hand_totals_set m_def n_def)
  obtain j where j: "j \<le> n" "card_value cards = m + 10 * int n - 10 * int j"
    "card_value cards \<le> 21 \<or> j = n" "\<forall>i < j. m + 10 * int n - 10 * int i > 21"
    using soften_result[of n "m + 10 * int n"] unfolding cv by blast
  have mem: "card_value cards \<in> set (hand_totals cards)"
  proof -
    have "card_value cards = m + 10 * int (n - j)" using j(1,2) by simp
    moreover have "n - j \<le> n" by simp
    ultimately show ?thesis unfolding ts by blast
  qed
  have upper: "t \<le> card_value cards" if "t \<in> set (hand_totals cards)" "t \<le> 21" for t
  proof -
    from that obtain k where k: "k \<le> n" "t = m + 10 * int k" unfolding ts by blast
    have "\<not> n - k < j"
    proof
      assume "n - k < j"
      then have "m + 10 * int n - 10 * int (n - k) > 21" using j(4) by blast
      then show False using k that(2) by simp
    qed
    then have "j + k \<le> n" using k(1) by linarith
    then have "int j + int k \<le> int n" by linarith
    then show ?thesis using j(2) k(2) by simp
  qed
  have lower: "card_value cards \<le> t" if "t \<in> set (hand_totals cards)" "\<not> card_value cards \<le> 21" for t
  proof -
    from that obtain k where k: "k \<le> n" "t = m + 10 * int k" unfolding ts by blast
    have "j = n" using j(3) that(2) by blast
    then show ?thesis using j(2) k by simp
  qed
  show ?thesis
  proof (cases "\<exists>t \<in> set (hand_totals cards). t \<le> 21")
    case True
    then obtain t where t: "t \<in> set (hand_totals cards)" "t \<le> 21" by blast
    have "card_value cards \<le> 21"
    proof (rule ccontr)
      assume "\<not> card_value cards \<le> 21"
      then have "card_value cards \<le> t" using lower t(1) by blast
      then show False using t(2) \<open>\<not> card_value cards \<le> 21\<close> by simp
    qed
    then show ?thesis using True mem upper by auto
  next
    case False
    then have "\<not> card_value cards \<le> 21" using mem by blast
    then show ?thesis using False mem lower by auto
  qed
qed

theorem card_value_best_total_witness:
  "card_value [(Ace, Spades), (King, Hearts)] = 21 \<and>
   card_value [(Ace, Spades), (King, Hearts), (Ace, Clubs)] = 12 \<and>
   card_value [(King, Spades), (Queen, Hearts), (Five, Clubs)] = 25"
  using card_value_best_total [of "[(Ace, Spades), (King, Hearts)]"]
    card_value_best_total [of "[(Ace, Spades), (King, Hearts), (Ace, Clubs)]"]
    card_value_best_total [of "[(King, Spades), (Queen, Hearts), (Five, Clubs)]"]
  by (simp add: card_value_def count_card_def)

section \<open>Roulette winnings\<close>

lemma py_int_str_all: "\<forall>n \<in> set [1..<37]. py_int (str n) = Inr (int n)"
  by code_simp

lemma str_not_zero_all: "\<forall>n \<in> set [1..<37]. \<not> zero_pocket (str n)"
  by code_simp

lemma str_inj:
  assumes "n \<in> set [1..<37]" "m \<in> set [1..<37]" "str n = str m"
  shows "n = m"
proof -
  have "py_int (str n) = Inr (int n)" using py_int_str_all assms(1) by (rule bspec)
  then have "Inr (int n) = py_int (str n)" by (rule sym)
  also have "\<dots> = py_int (str m)" by (simp only: assms(3))
  also have "\<dots> = Inr (int m)" using py_int_str_all assms(2) by (rule bspec)
  finally show "n = m" by simp
qed

lemma outside_zero:
  assumes "zero_pocket result"
  shows "\<not> outside_bet_won choice result"
proof
  assume "outside_bet_won choice result"
  then obtain n where n: "n \<in> set [1..<37]" "result = str n"
    unfolding outside_bet_won_def Bex_def by (elim exE conjE)
  have "\<not> zero_pocket (str n)" using str_not_zero_all n(1) by (rule bspec)
  then show False using assms n(2) by simp
qed

lemma outside_number:
  assumes "n \<in> set [1..<37]"
  shows "outside_bet_won choice (str n) \<longleftrightarrow> outside_pays choice n"
proof
  assume "outside_bet_won choice (str n)"
  then obtain m where m: "m \<in> set [1..<37]" "str n = str m" "outside_pays choice m"
    unfolding outside_bet_won_def Bex_def by (elim exE conjE)
  have "n = m" by (rule str_inj[OF assms m(1) m(2)])
  then show "outside_pays choice n" using m(3) by simp
next
  assume "outside_pays choice n"
  then have "n \<in> set [1..<37] \<and> str n = str n \<and> outside_pays choice n" using assms by simp
  then show "outside_bet_won choice (str n)" unfolding outside_bet_won_def Bex_def by (rule exI)
qed

lemma winnings_number:
  assumes "n \<in> set [1..<37]" "choice \<noteq> str n"
  shows "roulette_winnings bet choice (str n) = Inr (if outside_bet_won choice (str n) then 2 * bet else 0)"
proof -
  have p: "py_int (str n) = Inr (int n)" using py_int_str_all assms(1) by (rule bspec)
  have "\<not> zero_pocket (str n)" using str_not_zero_all assms(1) by (rule bspec)
  then have z: "str n \<notin> set [''0'', ''00'']" unfolding zero_pocket_def .
  have r: "1 \<le> int n" "int n \<le> 36" using assms(1) by simp_all
  have r': "(1 \<le> n \<and> n \<le> 18) \<longleftrightarrow> (1 \<le> int n \<and> int n \<le> 18)"
           "(19 \<le> n \<and> n \<le> 36) \<longleftrightarrow> (19 \<le> int n \<and> int n \<le> 36)" by linarith+
  have par: "int n mod 2 = 1 \<longleftrightarrow> odd n" "int n mod 2 = 0 \<longleftrightarrow> even n" by presburger+
  have "roulette_winnings bet choice (str n) = Inr (if outside_pays choice n then 2 * bet else 0)"
    unfolding roulette_winnings_def outside_pays_def r'
    using assms(2) z by (simp add: p par del: set_simps)
  then show ?thesis by (simp only: outside_number[OF assms(1)])
qed

lemma spin_options_cases:
  assumes "result \<in> set spin_options"
  shows "zero_pocket result \<or> (\<exists>n. n \<in> set [1..<37] \<and> result = str n)"
proof -
  have "result \<in> set [''0'', ''00''] \<or> result \<in> str ` set [1..<37]"
    using assms unfolding spin_options_def by (simp only: set_append set_map Un_iff)
  then show ?thesis
  proof
    assume "result \<in> set [''0'', ''00'']"
    then show ?thesis by (simp only: zero_pocket_def simp_thms)
  next
    assume "result \<in> str ` set [1..<37]"
    then obtain n where "n \<in> set [1..<37] \<and> result = str n" by (elim imageE) (rule that, rule conjI)
    then have "\<exists>n. n \<in> set [1..<37] \<and> result = str n" by (rule exI)
    then show ?thesis by (rule disjI2)
  qed
qed

lemma roulette_winnings_value:
  assumes "result \<in> set spin_options"
  shows "roulette_winnings bet choice result =
           Inr (if choice = result then 35 * bet
                else if outside_bet_won choice result then 2 * bet else 0)"
proof (cases "choice = result")
  case True
  then show ?thesis by (simp add: roulette_winnings_def)
next
  case False
  from spin_options_cases[OF assms] show ?thesis
  proof
    assume 1: "zero_pocket result"
    have "\<not> outside_bet_won choice result" by (rule outside_zero[OF 1])
    moreover have "roulette_winnings bet choice result = Inr 0"
      using 1 False unfolding zero_pocket_def by (simp add: roulette_winnings_def del: set_simps)
    ultimately show ?thesis using False by simp
  next
    assume "\<exists>n. n \<in> set [1..<37] \<and> result = str n"
    then obtain n where 2: "n \<in> set [1..<37]" "result = str n" by (elim exE conjE)
    have "choice \<noteq> str n" using False 2(2) by simp
    from winnings_number[OF 2(1) this, of bet] show ?thesis using False 2(2) by simp
  qed
qed

text \<open>
  Claim C6.  For every result the wheel can give and every choice, the winnings are 35
  times the stake when the choice is the result itself, twice the stake when the choice
  is an outside bet that the result satisfies, and 0 otherwise; a result of 0 or 00
  satisfies no outside bet, so there only the bet on that very pocket wins.
\<close>

theorem roulette_payout_rules:
  assumes "result \<in> set spin_options"
  shows "roulette_winnings bet choice result =
           Inr (if choice = result then 35 * bet
                else if outside_bet_won choice result then 2 * bet else 0) \<and>
         (zero_pocket result \<longrightarrow> \<not> outside_bet_won choice result \<and>
            roulette_winnings bet choice result = Inr (if choice = result then 35 * bet else 0))"
proof -
  have v: "roulette_winnings bet choice result =
           Inr (if choice = result then 35 * bet
                else if outside_bet_won choice result then 2 * bet else 0)"
    by (rule roulette_winnings_value[OF assms])
  have "\<not> outside_bet_won choice result" if "zero_pocket result"
    by (rule outside_zero[OF that])
  then show ?thesis using v by simp
qed

theorem roulette_payout_rules_witness:
  "''17'' \<in> set spin_options \<and> ''1'' \<in> set spin_options \<and> ''0'' \<in> set spin_options \<and>
   roulette_winnings 10 ''17'' ''17'' = Inr 350 \<and>
   roulette_winnings 10 ''red'' ''1'' = Inr 20 \<and>
   roulette_winnings 10 ''red'' ''0'' = Inr 0"
proof -
  have h: "''17'' \<in> set spin_options" "''1'' \<in> set spin_options" "''0'' \<in> set spin_options"
    by code_simp+
  have o: "outside_bet_won ''red'' ''1''" by code_simp
  have z: "zero_pocket ''0''" by code_simp
  show ?thesis
    using h o z roulette_payout_rules [OF h(1), of 10 "''17''"]
      roulette_payout_rules [OF h(2), of 10 "''red''"]
      roulette_payout_rules [OF h(3), of 10 "''red''"]
    by simp
qed

section \<open>The ledger store\<close>

text \<open>
  Claim C3.  On an account the store has never seen, with the store available, the
  balance reads 0; crediting a positive amount \<open>X\<close> and then debiting \<open>X\<close> both succeed
  and leave a wallet whose balance is 0 again, with \<open>total_earned = X\<close> and
  \<open>total_spent = X\<close>.
\<close>

theorem round_trip_unseen_account:
  assumes "economy_up w" "economy w (g, d) = None" "0 < X"
  shows "fst (read_balance g d w) = Inr 0 \<and>
         (\<exists>w1 w2 doc. update_wallet g d X t w = (True, w1) \<and>
            update_wallet g d (- X) t' w1 = (True, w2) \<and>
            economy w2 (g, d) = Some doc \<and> doc ''balance'' = Some 0 \<and>
            doc ''total_earned'' = Some X \<and> doc ''total_spent'' = Some X \<and>
            fst (read_balance g d w2) = Inr 0)"
  using assms by (simp add: update_wallet_def read_balance_def get_wallet_def Let_def)

theorem round_trip_unseen_account_witness:
  "economy_up funded_world \<and> economy funded_world (7, 7) = None \<and> (0::int) < 5 \<and>
   (\<exists>w1 w2 doc. update_wallet 7 7 5 ''credit'' funded_world = (True, w1) \<and>
      update_wallet 7 7 (- 5) ''debit'' w1 = (True, w2) \<and>
      economy w2 (7, 7) = Some doc \<and> doc ''balance'' = Some 0 \<and>
      doc ''total_earned'' = Some 5 \<and> doc ''total_spent'' = Some 5)"
proof -
  have h: "economy_up funded_world" "economy funded_world (7, 7) = None" "(0::int) < 5"
    by (simp_all add: funded_world_def)
  from round_trip_unseen_account [OF h, of "''credit''" "''debit''"] h show ?thesis
    by blast
qed

section \<open>The journal\<close>

text \<open>
  Claim C9.  A call of \<open>add_wallet_event\<close> always returns: when the insert into the
  journal fails, the failure is logged and the journal is left as it was, and in either
  case the wallets and the history of increments are exactly those before the call.
\<close>

theorem journal_failure_contained:
  "\<exists>w'. add_wallet_event g d a t desc w = Inr w' \<and> economy w' = economy w \<and>
      economy_up w' = economy_up w \<and> trace w' = trace w \<and>
      (if wallet_events_up w
       then wallet_events w' = wallet_events w @
              [\<lparr>ev_guild_id = g, ev_discord_id = d, ev_amount = a,
                ev_event_type = t, ev_description = desc\<rparr>] \<and> error_log w' = error_log w
       else wallet_events w' = wallet_events w \<and>
            error_log w' = error_log w @ [''Failed to add wallet event''])"
  by (simp add: add_wallet_event_def insert_one_def)

theorem journal_failure_contained_witness:
  "\<exists>w'. add_wallet_event 1 2 (- 10) ''gambling_slots'' (SlotsText [Cherry, Lemon, Star] 10)
           (funded_world\<lparr>wallet_events_up := False\<rparr>) = Inr w' \<and>
        economy w' = economy funded_world \<and> economy_up w' \<and> trace w' = [] \<and>
        wallet_events w' = [] \<and> error_log w' = [''Failed to add wallet event'']"
  using journal_failure_contained [of 1 2 "- 10" "''gambling_slots''"
      "SlotsText [Cherry, Lemon, Star] 10" "funded_world\<lparr>wallet_events_up := False\<rparr>"]
  by (simp add: funded_world_def)

section \<open>Validation comes first\<close>

text \<open>
  Claim C4.  In each of the three commands a stake that is not positive or that exceeds
  the command's ceiling ends the command before the lock is created or taken and
  before the store or the journal is touched: the state, with its history, is the one
  before the call, the answer of a premium guild is an \<open>InvalidBet\<close> rejection, and
  blackjack opens no view.  The three ceilings differ.
\<close>

theorem invalid_bet_no_effects:
  "(bet \<le> 0 \<or> 10000 < bet \<longrightarrow>
      snd (slots p g d bet s0 s1 s2 w) = w \<and>
      (p \<longrightarrow> InvalidBet (fst (slots p g d bet s0 s1 s2 w)))) \<and>
   (bet \<le> 0 \<or> 5000 < bet \<longrightarrow>
      snd (blackjack ctx p g d bet deck w) = w \<and>
      snd (fst (blackjack ctx p g d bet deck w)) = None \<and>
      (p \<longrightarrow> InvalidBet (fst (fst (blackjack ctx p g d bet deck w))))) \<and>
   (bet \<le> 0 \<or> 2000 < bet \<longrightarrow>
      snd (roulette ctx p g d bet choice result w) = w \<and>
      (p \<longrightarrow> InvalidBet (fst (roulette ctx p g d bet choice result w)))) \<and>
   distinct [10000, 5000, 2000 :: int]"
  by (simp add: slots_def blackjack_def roulette_def)

theorem invalid_bet_no_effects_witness:
  "slots True 1 2 0 Seven Seven Seven funded_world = (BetNotPositive, funded_world) \<and>
   blackjack application_context True 1 2 5001 new_deck funded_world =
     ((BetAboveMaximum 5000, None), funded_world) \<and>
   roulette application_context True 1 2 2001 ''red'' ''1'' funded_world =
     (BetAboveMaximum 2000, funded_world)"
proof -
  have "fst (slots True 1 2 0 Seven Seven Seven funded_world) = BetNotPositive"
    "fst (blackjack application_context True 1 2 5001 new_deck funded_world) =
       (BetAboveMaximum 5000, None)"
    "fst (roulette application_context True 1 2 2001 ''red'' ''1'' funded_world) =
       BetAboveMaximum 2000"
    by (simp_all add: slots_def blackjack_def roulette_def)
  then show ?thesis
    using invalid_bet_no_effects [where bet = 0 and p = True and g = 1 and d = 2 and ?s0.0 = Seven
        and ?s1.0 = Seven and ?s2.0 = Seven and w = funded_world]
      invalid_bet_no_effects [where bet = 5001 and p = True and g = 1 and d = 2
        and w = funded_world and deck = new_deck and ctx = application_context]
      invalid_bet_no_effects [where bet = 2001 and p = True and g = 1 and d = 2
        and w = funded_world and ctx = application_context and choice = "''red''"
        and result = "''1''"]
    by (simp add: prod_eq_iff)
qed

section \<open>Settlement\<close>

lemma increments_append: "increments (xs @ ys) = increments xs @ increments ys"
  by (induction xs rule: increments.induct) simp_all

lemma end_game_over: "self_game_over (fst (snd (end_game self msg net w)))"
  by (simp add: end_game_def Let_def split: prod.split sum.split)

lemma update_wallet_trace:
  "trace (snd (update_wallet g d a t w)) = trace w \<or>
   trace (snd (update_wallet g d a t w)) = trace w @ [Incremented (g, d) a]"
  by (simp add: update_wallet_def Let_def)

lemma journal_and_balance_trace: "trace (snd (journal_and_balance g d n t desc w)) = trace w"
  by (simp add: journal_and_balance_def add_wallet_event_def insert_one_def read_balance_def
      get_wallet_def Let_def split: option.split)

lemma end_game_settles_once:
  "length (increments (trace (snd (snd (end_game self msg net w))))) \<le> length (increments (trace w)) + 1"
proof -
  define sw where "sw = update_wallet (self_guild_id self) (self_discord_id self) net ''gambling_blackjack'' w"
  define jb where "jb = journal_and_balance (self_guild_id self) (self_discord_id self) net
                   ''gambling_blackjack''
                   (BlackjackText (card_value (self_player_cards self))
                                  (card_value (self_dealer_cards self)) (self_bet self))
                   (snd sw)"
  have t: "length (increments (trace (snd sw))) \<le> length (increments (trace w)) + 1"
    using update_wallet_trace[of "self_guild_id self" "self_discord_id self" net "''gambling_blackjack''" w]
    unfolding sw_def by (auto simp: increments_append)
  have j: "trace (snd jb) = trace (snd sw)"
    unfolding jb_def by (rule journal_and_balance_trace)
  have "trace (snd (snd (end_game self msg net w))) = trace (snd sw)"
  proof (cases "fst sw")
    case True
    obtain x w2 where x: "jb = (x, w2)" by (cases jb)
    then have "trace w2 = trace (snd sw)" using j by simp
    then show ?thesis using True x
      by (cases x) (simp_all add: end_game_def Let_def sw_def[symmetric] jb_def[symmetric])
  next
    case False
    then show ?thesis by (simp add: end_game_def Let_def sw_def[symmetric])
  qed
  then show ?thesis using t by simp
qed

lemma end_game_result:
  assumes "end_game self msg net w = (r, self', w')"
  shows "self_game_over self' \<and> length (increments (trace w')) \<le> length (increments (trace w)) + 1"
  using end_game_over[of self msg net w] end_game_settles_once[of self msg net w] assms by simp

lemma hit_button_step:
  assumes "hit_button self w = (r, self', w')" "\<not> self_game_over self"
  shows "w' = w \<or> self_game_over self' \<and> length (increments (trace w')) \<le> length (increments (trace w)) + 1"
  using assms
  by (auto simp: hit_button_def Let_def split: sum.splits prod.splits if_splits list.splits dest: end_game_result)

lemma stand_button_step:
  assumes "stand_button self w = (r, self', w')" "\<not> self_game_over self"
  shows "w' = w \<or> self_game_over self' \<and> length (increments (trace w')) \<le> length (increments (trace w)) + 1"
  using assms
  by (auto simp: stand_button_def Let_def split: option.splits prod.splits if_splits dest: end_game_result)

lemma press_over: "self_game_over self \<Longrightarrow> press a self w = (NoReply, self, w)"
  by (cases a) (simp_all add: hit_button_def stand_button_def)

lemma play_over: "self_game_over self \<Longrightarrow> play acts self w = (self, w)"
  by (induction acts) (simp_all add: press_over)

lemma press_step:
  assumes "press a self w = (r, self', w')" "\<not> self_game_over self"
  shows "w' = w \<or> self_game_over self' \<and> length (increments (trace w')) \<le> length (increments (trace w)) + 1"
  using assms hit_button_step stand_button_step by (cases a) simp_all

lemma play_settles_once:
  "length (increments (trace (snd (play acts self w)))) \<le> length (increments (trace w)) + 1"
proof (induction acts arbitrary: self w)
  case Nil
  then show ?case by simp
next
  case (Cons a acts)
  obtain r self' w' where p: "press a self w = (r, self', w')" by (cases "press a self w") 
  show ?case
  proof (cases "self_game_over self")
    case True
    then show ?thesis using Cons.IH[of self w] by (simp add: press_over)
  next
    case False
    from press_step[OF p False] show ?thesis
    proof
      assume "w' = w"
      then show ?thesis using p Cons.IH[of self' w] by simp
    next
      assume "self_game_over self' \<and> length (increments (trace w')) \<le> length (increments (trace w)) + 1"
      then show ?thesis using p by (simp add: play_over)
    qed
  qed
qed

lemma slots_trace:
  assumes "economy_up w" "economy w (g, d) = Some doc" "doc ''balance'' = Some balance"
    "0 < bet" "bet \<le> balance" "bet \<le> 10000"
  shows "trace (snd (slots True g d bet s0 s1 s2 w)) =
           trace w @ [Acquired (g, d), Incremented (g, d) (- bet), Drawn]
             @ (if slots_winnings bet [s0, s1, s2] > 0
                then [Incremented (g, d) (slots_winnings bet [s0, s1, s2])] else [])
             @ [Released (g, d)]"
  using assms
  by (simp add: slots_def with_user_lock_def handled_def slots_locked_def read_balance_def get_wallet_def
      update_wallet_def journal_and_balance_def add_wallet_event_def insert_one_def get_user_lock_def Let_def)

lemma roulette_trace:
  assumes "economy_up w" "economy w (g, d) = Some doc" "doc ''balance'' = Some balance"
    "0 < bet" "bet \<le> balance" "bet \<le> 2000" "lower choice \<in> valid_choices"
    "roulette_winnings bet (lower choice) result = Inr winnings"
    "has_edit_original_response ctx"
  shows "trace (snd (roulette ctx True g d bet choice result w)) =
           trace w @ [Acquired (g, d), Drawn, Incremented (g, d) (winnings - bet), Released (g, d)]"
  using assms
  by (simp add: roulette_def with_user_lock_def handled_def roulette_locked_def read_balance_def get_wallet_def
      update_wallet_def journal_and_balance_def add_wallet_event_def insert_one_def get_user_lock_def
      edit_original_response_def Let_def)

lemma blackjack_natural:
  assumes "economy_up w" "economy w (g, d) = Some doc" "doc ''balance'' = Some balance"
    "0 < bet" "bet \<le> balance" "bet \<le> 5000"
    "deal deck = Inr (player_cards, dealer_cards, rest)" "card_value player_cards = 21"
    "has_edit_original_response ctx"
  shows "\<exists>w'. blackjack ctx True g d bet deck w =
           ((BlackjackResult (if card_value dealer_cards = 21 then BothBlackjack else Blackjack)
               (if card_value dealer_cards = 21 then 0 else blackjack_winnings bet - bet)
               (balance + (if card_value dealer_cards = 21 then 0 else blackjack_winnings bet - bet)),
             None), w') \<and>
           trace w' = trace w @ [Acquired (g, d), Drawn,
               Incremented (g, d) (if card_value dealer_cards = 21 then 0 else blackjack_winnings bet - bet),
               Released (g, d)]"
  using assms
  by (simp add: blackjack_def with_user_lock_def handled_def blackjack_locked_def read_balance_def get_wallet_def
      update_wallet_def journal_and_balance_def add_wallet_event_def insert_one_def get_user_lock_def
      edit_original_response_def Let_def)

lemma blackjack_session:
  assumes "economy_up w" "economy w (g, d) = Some doc" "doc ''balance'' = Some balance"
    "0 < bet" "bet \<le> balance" "bet \<le> 5000"
    "deal deck = Inr (player_cards, dealer_cards, rest)" "card_value player_cards \<noteq> 21"
    "has_edit_original_response ctx"
  shows "\<exists>view w'. blackjack ctx True g d bet deck w =
           ((YourTurn player_cards [dealer_cards ! 0] (card_value player_cards) (card_value [dealer_cards ! 0]),
             Some view), w') \<and>
           view = \<lparr>self_deck = rest, self_player_cards = player_cards, self_dealer_cards = dealer_cards,
                   self_bet = bet, self_guild_id = g, self_discord_id = d, self_game_over = False\<rparr> \<and>
           economy w' = economy w \<and> wallet_events w' = wallet_events w \<and>
           trace w' = trace w @ [Acquired (g, d), Drawn, Released (g, d)]"
  using assms
  by (simp add: blackjack_def with_user_lock_def handled_def blackjack_locked_def read_balance_def get_wallet_def
      get_user_lock_def edit_original_response_def Let_def)

lemma blackjack_raises:
  assumes "economy_up w" "economy w (g, d) = Some doc" "doc ''balance'' = Some balance"
    "0 < bet" "bet \<le> balance" "bet \<le> 5000" "\<not> has_edit_original_response ctx"
  shows "\<exists>w'. blackjack ctx True g d bet deck w = ((GameFailed, None), w') \<and>
           economy w' = economy w \<and> wallet_events w' = wallet_events w \<and>
           trace w' = trace w @ [Acquired (g, d), Drawn, Released (g, d)]"
  using assms
  by (simp add: blackjack_def with_user_lock_def handled_def blackjack_locked_def read_balance_def get_wallet_def
      get_user_lock_def edit_original_response_def Let_def)

lemma end_game_trace:
  assumes "economy_up w"
  shows "trace (snd (snd (end_game self msg net w))) =
           trace w @ [Incremented (self_guild_id self, self_discord_id self) net]"
  using assms
  by (simp add: end_game_def read_balance_def get_wallet_def
      update_wallet_def journal_and_balance_def add_wallet_event_def insert_one_def Let_def
      split: option.split)

text \<open>
  Claim C1, as the code has it.  For a bet that passes validation and the balance
  check, with the store available: slots applies the delta \<open>- bet\<close>, then draws, and
  then applies a separate delta of the winnings exactly when they are positive.  On a context
  whose \<^verbatim>\<open>edit_original_response\<close> calls succeed, roulette draws first and
  applies one delta, the winnings less the stake, and blackjack applies nothing when the
  cards are dealt and one delta, the net result, when the hand is resolved: at once on
  a dealt 21, and in \<open>end_game\<close> otherwise.
\<close>

theorem bet_settlement_deltas:
  assumes "economy_up w" "economy w (g, d) = Some doc" "doc ''balance'' = Some balance"
    "0 < bet" "bet \<le> balance"
  shows "(bet \<le> 10000 \<longrightarrow>
            trace (snd (slots True g d bet s0 s1 s2 w)) =
              trace w @ [Acquired (g, d), Incremented (g, d) (- bet), Drawn]
                @ (if slots_winnings bet [s0, s1, s2] > 0
                   then [Incremented (g, d) (slots_winnings bet [s0, s1, s2])] else [])
                @ [Released (g, d)]) \<and>
         (has_edit_original_response ctx \<and> bet \<le> 2000 \<and> lower choice \<in> valid_choices \<and>
          result \<in> set spin_options \<longrightarrow>
            (\<exists>winnings. roulette_winnings bet (lower choice) result = Inr winnings \<and>
               trace (snd (roulette ctx True g d bet choice result w)) =
                 trace w @ [Acquired (g, d), Drawn, Incremented (g, d) (winnings - bet),
                            Released (g, d)])) \<and>
         (has_edit_original_response ctx \<and> bet \<le> 5000 \<and>
          deal deck = Inr (player_cards, dealer_cards, rest) \<longrightarrow>
            trace (snd (blackjack ctx True g d bet deck w)) =
              trace w @ [Acquired (g, d), Drawn]
                @ (if card_value player_cards = 21
                   then [Incremented (g, d)
                           (if card_value dealer_cards = 21 then 0 else blackjack_winnings bet - bet)]
                   else [])
                @ [Released (g, d)]) \<and>
         trace (snd (snd (end_game self result_text net_result w))) =
           trace w @ [Incremented (self_guild_id self, self_discord_id self) net_result]"
proof (intro conjI impI)
  assume "bet \<le> 10000"
  then show "trace (snd (slots True g d bet s0 s1 s2 w)) =
              trace w @ [Acquired (g, d), Incremented (g, d) (- bet), Drawn]
                @ (if slots_winnings bet [s0, s1, s2] > 0
                   then [Incremented (g, d) (slots_winnings bet [s0, s1, s2])] else [])
                @ [Released (g, d)]"
    using slots_trace[OF assms] by simp
next
  assume a: "has_edit_original_response ctx \<and> bet \<le> 2000 \<and> lower choice \<in> valid_choices \<and>
    result \<in> set spin_options"
  then obtain winnings where v: "roulette_winnings bet (lower choice) result = Inr winnings"
    using roulette_winnings_value[of result bet "lower choice"] by simp
  have "trace (snd (roulette ctx True g d bet choice result w)) =
          trace w @ [Acquired (g, d), Drawn, Incremented (g, d) (winnings - bet), Released (g, d)]"
    using roulette_trace[OF assms _ _ v] a by simp
  then show "\<exists>winnings. roulette_winnings bet (lower choice) result = Inr winnings \<and>
               trace (snd (roulette ctx True g d bet choice result w)) =
                 trace w @ [Acquired (g, d), Drawn, Incremented (g, d) (winnings - bet),
                            Released (g, d)]"
    using v by simp
next
  assume a: "has_edit_original_response ctx \<and> bet \<le> 5000 \<and>
    deal deck = Inr (player_cards, dealer_cards, rest)"
  show "trace (snd (blackjack ctx True g d bet deck w)) =
              trace w @ [Acquired (g, d), Drawn]
                @ (if card_value player_cards = 21
                   then [Incremented (g, d)
                           (if card_value dealer_cards = 21 then 0 else blackjack_winnings bet - bet)]
                   else [])
                @ [Released (g, d)]"
  proof (cases "card_value player_cards = 21")
    case True
    from blackjack_natural[OF assms _ _ True, of deck dealer_cards rest ctx] a True
    show ?thesis by auto
  next
    case False
    from blackjack_session[OF assms _ _ False, of deck dealer_cards rest ctx] a False
    show ?thesis by auto
  qed
next
  show "trace (snd (snd (end_game self result_text net_result w))) =
           trace w @ [Incremented (self_guild_id self, self_discord_id self) net_result]"
    by (rule end_game_trace[OF assms(1)])
qed

lemma funded_world_wallet:
  "economy_up funded_world"
  "economy funded_world (1, 2) = Some [''balance'' \<mapsto> 100, ''total_earned'' \<mapsto> 100, ''total_spent'' \<mapsto> 0]"
  "[''balance'' \<mapsto> 100, ''total_earned'' \<mapsto> 100, ''total_spent'' \<mapsto> (0::int)] ''balance'' = Some 100"
  by (simp_all add: funded_world_def)

lemma stacked_deck_deal:
  "deal stacked_deck = Inr ([(Ace, Spades), (King, Clubs)], [(Queen, Clubs), (Jack, Clubs)],
                             butlast (butlast (butlast (butlast stacked_deck))))"
  by code_simp

lemma new_deck_deal:
  "deal new_deck = Inr ([(King, Clubs), (Queen, Clubs)], [(Jack, Clubs), (Ten, Clubs)],
                         butlast (butlast (butlast (butlast new_deck))))"
  by code_simp

lemma context_attribute:
  "has_edit_original_response editing_context" "\<not> has_edit_original_response application_context"
  by (simp_all add: editing_context_def application_context_def)

theorem bet_settlement_deltas_witness:
  "trace (snd (slots True 1 2 10 Seven Seven Seven funded_world)) =
     [Acquired (1, 2), Incremented (1, 2) (- 10), Drawn, Incremented (1, 2) 1000, Released (1, 2)] \<and>
   trace (snd (slots True 1 2 10 Cherry Lemon Star funded_world)) =
     [Acquired (1, 2), Incremented (1, 2) (- 10), Drawn, Released (1, 2)] \<and>
   trace (snd (roulette editing_context True 1 2 10 ''red'' ''2'' funded_world)) =
     [Acquired (1, 2), Drawn, Incremented (1, 2) (- 10), Released (1, 2)] \<and>
   trace (snd (blackjack editing_context True 1 2 10 stacked_deck funded_world)) =
     [Acquired (1, 2), Drawn, Incremented (1, 2) 15, Released (1, 2)]"
proof -
  have b: "(0::int) < 10" "(10::int) \<le> 100" by simp_all
  have r: "lower ''red'' \<in> valid_choices" "''2'' \<in> set spin_options"
    "roulette_winnings 10 (lower ''red'') ''2'' = Inr 0"
    by code_simp+
  have k: "card_value [(Ace, Spades), (King, Clubs)] = 21" "card_value [(Queen, Clubs), (Jack, Clubs)] = 20"
    by (simp_all add: card_value_def count_card_def)
  have t: "trace funded_world = []" by (simp add: funded_world_def)
  note w = bet_settlement_deltas [OF funded_world_wallet b]
  show ?thesis
    using w [where ?s0.0 = Seven and ?s1.0 = Seven and ?s2.0 = Seven and ctx = editing_context
        and choice = "''red''" and result = "''2''" and deck = stacked_deck
        and player_cards = "[(Ace, Spades), (King, Clubs)]"
        and dealer_cards = "[(Queen, Clubs), (Jack, Clubs)]"
        and rest = "butlast (butlast (butlast (butlast stacked_deck)))"]
      w [where ?s0.0 = Cherry and ?s1.0 = Lemon and ?s2.0 = Star and ctx = editing_context
        and choice = "''red''" and result = "''2''" and deck = stacked_deck
        and player_cards = "[(Ace, Spades), (King, Clubs)]"
        and dealer_cards = "[(Queen, Clubs), (Jack, Clubs)]"
        and rest = "butlast (butlast (butlast (butlast stacked_deck)))"]
      r k stacked_deck_deal context_attribute
    by (simp add: t slots_winnings_def blackjack_winnings_def)
qed

text \<open>
  A funded roulette bet of 10 on red against the draw of 1, which wins 20.  On the context
  of the library the first animation frame raises: the command answers that the
  game failed and no delta reaches the store.  On a context whose calls succeed the bet
  reaches the store as the single delta 10.  Neither is \<open>- 10\<close> followed by 20.
\<close>

theorem lifecycle_single_delta_counterexample:
  "roulette_winnings 10 ''red'' ''1'' = Inr 20 \<and>
   fst (roulette application_context True 1 2 10 ''red'' ''1'' funded_world) = GameFailed \<and>
   trace (snd (roulette application_context True 1 2 10 ''red'' ''1'' funded_world)) =
     [Acquired (1, 2), Released (1, 2)] \<and>
   trace (snd (roulette editing_context True 1 2 10 ''red'' ''1'' funded_world)) =
     [Acquired (1, 2), Drawn, Incremented (1, 2) 10, Released (1, 2)] \<and>
   increments (trace (snd (roulette application_context True 1 2 10 ''red'' ''1'' funded_world)))
     \<noteq> [- 10, 20] \<and>
   increments (trace (snd (roulette editing_context True 1 2 10 ''red'' ''1'' funded_world)))
     \<noteq> [- 10, 20]"
  by code_simp

section \<open>Blackjack\<close>

lemma blackjack_winnings_net:
  "blackjack_winnings bet - bet = (3 * bet) div 2"
  "even bet \<Longrightarrow> 2 * (blackjack_winnings bet - bet) = 3 * bet"
  "odd bet \<Longrightarrow> 2 * (blackjack_winnings bet - bet) = 3 * bet - 1"
  unfolding blackjack_winnings_def by presburger+

text \<open>
  Claim C2, as the code has it.  For a funded bet with the store available, on a context
  whose \<^verbatim>\<open>edit_original_response\<close> calls succeed, a deal that gives the player 21 is
  settled at once and opens no view.  When the dealer's two cards are not 21 the net
  result is \<open>int(2.5 * bet) - bet\<close>, the integer quotient of \<open>3 * bet\<close> by 2: one and a
  half times an even stake, and half a unit less than that for an odd stake.  When both
  hands are 21 the net result is 0.
\<close>

theorem natural_blackjack_settlement:
  assumes "economy_up w" "economy w (g, d) = Some doc" "doc ''balance'' = Some balance"
    "0 < bet" "bet \<le> balance" "bet \<le> 5000"
    "deal deck = Inr (player_cards, dealer_cards, rest)" "card_value player_cards = 21"
    "has_edit_original_response ctx"
    "net = (if card_value dealer_cards = 21 then 0 else blackjack_winnings bet - bet)"
  shows "(\<exists>w'. blackjack ctx True g d bet deck w =
            ((BlackjackResult (if card_value dealer_cards = 21 then BothBlackjack else Blackjack)
                net (balance + net), None), w') \<and>
            increments (trace w') = increments (trace w) @ [net]) \<and>
         (card_value dealer_cards \<noteq> 21 \<longrightarrow>
            net = blackjack_winnings bet - bet \<and> net = (3 * bet) div 2 \<and>
            (even bet \<longrightarrow> 2 * net = 3 * bet) \<and> (odd bet \<longrightarrow> 2 * net = 3 * bet - 1)) \<and>
         (card_value dealer_cards = 21 \<longrightarrow> net = 0)"
proof -
  from blackjack_natural[OF assms(1-9)] obtain w' where
    w': "blackjack ctx True g d bet deck w =
           ((BlackjackResult (if card_value dealer_cards = 21 then BothBlackjack else Blackjack)
               net (balance + net), None), w')"
       "trace w' = trace w @ [Acquired (g, d), Drawn, Incremented (g, d) net, Released (g, d)]"
    unfolding assms(10) by (elim exE conjE)
  have "increments (trace w') = increments (trace w) @ [net]"
    by (simp add: w'(2) increments_append)
  then have 1: "\<exists>w'. blackjack ctx True g d bet deck w =
            ((BlackjackResult (if card_value dealer_cards = 21 then BothBlackjack else Blackjack)
                net (balance + net), None), w') \<and>
            increments (trace w') = increments (trace w) @ [net]"
    using w'(1) by simp
  show ?thesis
    using 1 assms(10) blackjack_winnings_net[of bet] by simp
qed

theorem natural_blackjack_settlement_witness:
  "fst (blackjack editing_context True 1 2 10 stacked_deck funded_world) =
     (BlackjackResult Blackjack 15 115, None) \<and>
   2 * (15::int) = 3 * 10"
proof -
  have b: "(0::int) < 10" "(10::int) \<le> 100" "(10::int) \<le> 5000" by simp_all
  have k: "card_value [(Ace, Spades), (King, Clubs)] = 21"
    by (simp add: card_value_def count_card_def)
  have k2: "card_value [(Queen, Clubs), (Jack, Clubs)] = 20"
    by (simp add: card_value_def count_card_def)
  have n: "(15::int) = (if card_value [(Queen, Clubs), (Jack, Clubs)] = 21 then 0 else blackjack_winnings 10 - 10)"
    by (simp add: k2 blackjack_winnings_def)
  from natural_blackjack_settlement [OF funded_world_wallet b stacked_deck_deal k context_attribute(1) n]
  show ?thesis by (auto simp: k2)
qed

text \<open>
  On a context whose calls succeed, a stake of 3 and a dealt 21 against the dealer's 20
  net 4, which is not one and a half times the stake.
\<close>

theorem natural_blackjack_odd_stake_counterexample:
  "has_edit_original_response editing_context \<and>
   card_value [(Ace, Spades), (King, Clubs)] = 21 \<and> card_value [(Queen, Clubs), (Jack, Clubs)] < 21 \<and>
   deal stacked_deck = Inr ([(Ace, Spades), (King, Clubs)], [(Queen, Clubs), (Jack, Clubs)],
                             butlast (butlast (butlast (butlast stacked_deck)))) \<and>
   fst (blackjack editing_context True 1 2 3 stacked_deck funded_world) =
     (BlackjackResult Blackjack 4 104, None) \<and>
   2 * (4::int) \<noteq> 3 * 3"
  by code_simp

text \<open>
  Claim C10, as the code has it.  A funded blackjack bet leaves the wallets and the
  journal as they were and applies no delta, unless the context's
  \<^verbatim>\<open>edit_original_response\<close> calls succeed and the player is dealt 21.  On the context
  of the library the command fails at the dealing animation and opens no view; on a context
  whose calls succeed and with a hand that is not 21 it opens a view that is
  not over and carries the stake, which was never debited.
\<close>

theorem abandoned_blackjack_costs_nothing:
  assumes "economy_up w" "economy w (g, d) = Some doc" "doc ''balance'' = Some balance"
    "0 < bet" "bet \<le> balance" "bet \<le> 5000"
    "deal deck = Inr (player_cards, dealer_cards, rest)"
    "\<not> has_edit_original_response ctx \<or> card_value player_cards \<noteq> 21"
  shows "\<exists>r w'. blackjack ctx True g d bet deck w = (r, w') \<and>
           economy w' = economy w \<and> wallet_events w' = wallet_events w \<and>
           increments (trace w') = increments (trace w) \<and>
           (if has_edit_original_response ctx
            then r = (YourTurn player_cards [dealer_cards ! 0] (card_value player_cards)
                        (card_value [dealer_cards ! 0]),
                      Some \<lparr>self_deck = rest, self_player_cards = player_cards,
                            self_dealer_cards = dealer_cards, self_bet = bet,
                            self_guild_id = g, self_discord_id = d, self_game_over = False\<rparr>)
            else r = (GameFailed, None))"
proof (cases "has_edit_original_response ctx")
  case True
  then have n: "card_value player_cards \<noteq> 21" using assms(8) by simp
  from blackjack_session[OF assms(1-7) n True] obtain view w' where
    v: "blackjack ctx True g d bet deck w =
           ((YourTurn player_cards [dealer_cards ! 0] (card_value player_cards) (card_value [dealer_cards ! 0]),
             Some view), w')"
       "view = \<lparr>self_deck = rest, self_player_cards = player_cards, self_dealer_cards = dealer_cards,
                   self_bet = bet, self_guild_id = g, self_discord_id = d, self_game_over = False\<rparr>"
       "economy w' = economy w" "wallet_events w' = wallet_events w"
       "trace w' = trace w @ [Acquired (g, d), Drawn, Released (g, d)]"
    by (elim exE conjE)
  have "increments (trace w') = increments (trace w)" by (simp add: v(5) increments_append)
  then show ?thesis using v(1,2,3,4) True by simp
next
  case False
  from blackjack_raises[OF assms(1-6) False, of deck] obtain w' where
    v: "blackjack ctx True g d bet deck w = ((GameFailed, None), w')"
       "economy w' = economy w" "wallet_events w' = wallet_events w"
       "trace w' = trace w @ [Acquired (g, d), Drawn, Released (g, d)]"
    by (elim exE conjE)
  have "increments (trace w') = increments (trace w)" by (simp add: v(4) increments_append)
  then show ?thesis using v(1,2,3) False by simp
qed

theorem abandoned_blackjack_costs_nothing_witness:
  "(\<exists>w'. blackjack application_context True 1 2 10 stacked_deck funded_world =
      ((GameFailed, None), w') \<and>
      economy w' = economy funded_world \<and> wallet_events w' = []) \<and>
   (\<exists>view w'. blackjack editing_context True 1 2 10 new_deck funded_world =
      ((YourTurn [(King, Clubs), (Queen, Clubs)] [(Jack, Clubs)] 20 10, Some view), w') \<and>
      \<not> self_game_over view \<and> economy w' = economy funded_world \<and> wallet_events w' = [])"
proof -
  have b: "(0::int) < 10" "(10::int) \<le> 100" "(10::int) \<le> 5000" by simp_all
  have k: "\<not> has_edit_original_response editing_context \<or>
           card_value [(King, Clubs), (Queen, Clubs)] \<noteq> 21"
    by (simp add: card_value_def count_card_def)
  have a: "\<not> has_edit_original_response application_context \<or>
           card_value [(Ace, Spades), (King, Clubs)] \<noteq> 21"
    by (simp add: context_attribute)
  have e: "wallet_events funded_world = []" by (simp add: funded_world_def)
  from abandoned_blackjack_costs_nothing [OF funded_world_wallet b stacked_deck_deal a]
    abandoned_blackjack_costs_nothing [OF funded_world_wallet b new_deck_deal k]
  show ?thesis by (auto simp: card_value_def count_card_def e context_attribute)
qed

text \<open>
  On a context whose calls succeed, a funded stake of 10 and a dealt 21: the command
  alone, with no click, moves the balance from 100 to 115 and writes a journal entry.
\<close>

theorem abandoned_blackjack_dealt_21_counterexample:
  "has_edit_original_response editing_context \<and>
   fst (read_balance 1 2 funded_world) = Inr 100 \<and>
   fst (blackjack editing_context True 1 2 10 stacked_deck funded_world) =
     (BlackjackResult Blackjack 15 115, None) \<and>
   fst (read_balance 1 2 (snd (blackjack editing_context True 1 2 10 stacked_deck funded_world))) =
     Inr 115 \<and>
   length (wallet_events (snd (blackjack editing_context True 1 2 10 stacked_deck funded_world))) = 1"
  by code_simp

lemma blackjack_locked_no_view:
  assumes "deal deck = Inr (player_cards, dealer_cards, rest)" "card_value player_cards = 21"
    "blackjack_locked ctx g d bet deck w = (Inr (r, v), w')"
  shows "v = None"
  using assms
  by (simp add: blackjack_locked_def Let_def split: prod.splits sum.splits if_splits)

lemma blackjack_natural_no_view:
  assumes "deal deck = Inr (player_cards, dealer_cards, rest)" "card_value player_cards = 21"
  shows "snd (fst (blackjack ctx p g d bet deck w)) = None"
proof -
  define w2 where "w2 = (get_user_lock (g, d) w)\<lparr>trace := trace (get_user_lock (g, d) w) @ [Acquired (g, d)]\<rparr>"
  obtain x w3 where b: "blackjack_locked ctx g d bet deck w2 = (x, w3)"
    by (cases "blackjack_locked ctx g d bet deck w2")
  have "snd (fst (handled (GameFailed, None)
          (with_user_lock (g, d) (blackjack_locked ctx g d bet deck) w))) = None"
  proof (cases x)
    case (Inl e)
    then show ?thesis using b
      by (simp add: handled_def with_user_lock_def Let_def w2_def[symmetric])
  next
    case (Inr rv)
    obtain r v where rv: "rv = (r, v)" by (cases rv)
    have "v = None" using blackjack_locked_no_view[OF assms] b Inr rv by simp
    then show ?thesis using b Inr rv
      by (simp add: handled_def with_user_lock_def Let_def w2_def[symmetric])
  qed
  then show ?thesis by (simp add: blackjack_def)
qed

text \<open>
  Claim C8.  \<open>end_game\<close> leaves the view over, and so do a hit that busts and a stand
  that the dealer completes; a dealt 21 is settled by the command and opens no view to
  click on.  On a view that is over, Hit and Stand return at once: no message, the same
  view, the same state (wallets, journal and history), whatever the sequence of further
  clicks.  Hence a session applies at most one delta.
\<close>

theorem terminal_is_absorbing:
  "self_game_over (fst (snd (end_game self result_text net_result w))) \<and>
   (\<not> self_game_over self \<and> pop (self_deck self) = Inr (c, deck) \<and>
      21 < card_value (self_player_cards self @ [c]) \<longrightarrow>
      self_game_over (fst (snd (hit_button self w)))) \<and>
   (\<not> self_game_over self \<and> fst (dealer_plays (self_deck self) (self_dealer_cards self)) = None \<longrightarrow>
      self_game_over (fst (snd (stand_button self w)))) \<and>
   (deal shuffled = Inr (player_cards, dealer_cards, rest) \<and> card_value player_cards = 21 \<longrightarrow>
      snd (fst (blackjack ctx p g d bet shuffled w)) = None) \<and>
   (self_game_over self \<longrightarrow>
      hit_button self w = (NoReply, self, w) \<and> stand_button self w = (NoReply, self, w) \<and>
      play acts self w = (self, w)) \<and>
   length (increments (trace (snd (play acts self w)))) \<le> length (increments (trace w)) + 1"
proof (intro conjI impI)
  assume "deal shuffled = Inr (player_cards, dealer_cards, rest) \<and> card_value player_cards = 21"
  then show "snd (fst (blackjack ctx p g d bet shuffled w)) = None"
    using blackjack_natural_no_view[of shuffled player_cards dealer_cards rest ctx p g d bet w] by simp
next
  show "self_game_over (fst (snd (end_game self result_text net_result w)))"
    by (rule end_game_over)
next
  assume "\<not> self_game_over self \<and> pop (self_deck self) = Inr (c, deck) \<and>
      21 < card_value (self_player_cards self @ [c])"
  then show "self_game_over (fst (snd (hit_button self w)))"
    by (simp add: hit_button_def Let_def end_game_over)
next
  assume a: "\<not> self_game_over self \<and> fst (dealer_plays (self_deck self) (self_dealer_cards self)) = None"
  obtain deck' dealer' where "dealer_plays (self_deck self) (self_dealer_cards self) = (None, deck', dealer')"
    using a by (cases "dealer_plays (self_deck self) (self_dealer_cards self)") auto
  then show "self_game_over (fst (snd (stand_button self w)))"
    using a by (simp add: stand_button_def Let_def end_game_over)
next
  assume "self_game_over self"
  then show "hit_button self w = (NoReply, self, w)" "stand_button self w = (NoReply, self, w)"
    by (simp_all add: hit_button_def stand_button_def)
next
  assume "self_game_over self"
  then show "play acts self w = (self, w)" by (rule play_over)
next
  show "length (increments (trace (snd (play acts self w)))) \<le> length (increments (trace w)) + 1"
    by (rule play_settles_once)
qed

lemma busting_view_hit:
  "pop (self_deck busting_view) = Inr ((King, Hearts), [(Two, Hearts)])"
  "card_value (self_player_cards busting_view @ [(King, Hearts)]) = 30"
  "\<not> self_game_over busting_view"
  by (simp_all add: busting_view_def pop_def card_value_def count_card_def)

theorem terminal_is_absorbing_witness:
  "self_game_over (fst (snd (hit_button busting_view funded_world))) \<and>
   play [Hit, Stand, Hit] (fst (snd (hit_button busting_view funded_world)))
        (snd (snd (hit_button busting_view funded_world))) =
     snd (hit_button busting_view funded_world) \<and>
   fst (hit_button busting_view funded_world) = BlackjackResult Bust (- 10) 90"
proof -
  have r: "fst (hit_button busting_view funded_world) = BlackjackResult Bust (- 10) 90"
    by code_simp
  have o: "self_game_over (fst (snd (hit_button busting_view funded_world)))"
    using terminal_is_absorbing [where self = busting_view and w = funded_world and c = "(King, Hearts)"
        and deck = "[(Two, Hearts)]"] busting_view_hit
    by simp
  show ?thesis
    using o r terminal_is_absorbing [where self = "fst (snd (hit_button busting_view funded_world))"
        and w = "snd (snd (hit_button busting_view funded_world))" and acts = "[Hit, Stand, Hit]"]
    by (simp del: play.simps)
qed

end
